theory Spec2Isabelle
  imports Main "HOL-Library.Sublist"
begin

section \<open>The compiler identification probe \<open>compiler_id.c\<close>\<close>

text \<open>
  The file under study is a preprocessor fragment:
  \<^verbatim>\<open>
   1  #if defined(__EMSCRIPTEN__)
   2  #define MESON_COMPILER_FAMILY emscripten
   3  #elif defined(__clang__)
   4  #define MESON_COMPILER_FAMILY clang
   5  #elif defined(__GNUC__)
   6  #define MESON_COMPILER_FAMILY gcc
   7  #elif defined(_MSC_VER)
   8  #define MESON_COMPILER_FAMILY msvc
   9  #endif
  10  "MESON_DELIMITER" MESON_COMPILER_FAMILY
  \<close>
  Its input is the table of macros that are defined when the compiler starts on the
  file (the compiler's predefined macros and those of the command line); its output is
  the preprocessed text of line 10.
\<close>

subsection \<open>Preprocessing tokens and the macro table\<close>

text \<open>
  Only two kinds of preprocessing token occur in the file: identifiers and string
  literals; the predefined macros of a compiler also expand to numbers. A string literal
  or a number is never subject to macro replacement; an identifier is replaced when it
  names a macro. All macros written or tested by the file are object-like, so the
  table maps a name to its replacement list; function-like macros are left out. The
  table is an association list whose first entry for a name is the current definition.
\<close>

datatype pp_token = Ident string | StringLit string | PPNumber string

type_synonym macros = "(string \<times> pp_token list) list"

definition defined :: "macros \<Rightarrow> string \<Rightarrow> bool" where
  "defined env n = (map_of env n \<noteq> None)"

text \<open>
  \<^verbatim>\<open>#define n body\<close>: the new definition is the one found from now on. Where the name
  had a definition already (given on the command line, say), compilers diagnose the
  redefinition and go on with the new one; so does the model, without the diagnostic.
\<close>

definition pp_define :: "string \<Rightarrow> pp_token list \<Rightarrow> macros \<Rightarrow> macros" where
  "pp_define n body env = (n, body) # env"

text \<open>\<^verbatim>\<open>#undef\<close>-like removal, used to hide a macro while its own replacement is rescanned.\<close>

definition hide :: "string \<Rightarrow> macros \<Rightarrow> macros" where
  "hide n env = filter (\<lambda>p. fst p \<noteq> n) env"

text \<open>
  Macro replacement of one token, with rescanning: the replacement list of a macro is
  itself expanded, the macro being replaced not available during the rescan.
\<close>

function expand :: "macros \<Rightarrow> pp_token \<Rightarrow> pp_token list" where
  "expand env (StringLit s) = [StringLit s]"
| "expand env (PPNumber s) = [PPNumber s]"
| "expand env (Ident n) =
     (case map_of env n of
        None \<Rightarrow> [Ident n]
      | Some body \<Rightarrow> concat (map (expand (hide n env)) body))"
  by pat_completeness auto
termination
proof (relation "measure (\<lambda>(env, t). length env)")
  fix env :: macros and n body t
  assume "map_of env n = Some body"
  then have "(n, body) \<in> set env" by (rule map_of_SomeD)
  then have "length (hide n env) < length env"
    unfolding hide_def by (intro length_filter_less[where x = "(n, body)"]) simp_all
  then show "((hide n env, t), env, Ident n) \<in> measure (\<lambda>(env, t). length env)" by simp
qed simp

definition expand_line :: "macros \<Rightarrow> pp_token list \<Rightarrow> pp_token list" where
  "expand_line env toks = concat (map (expand env) toks)"

subsection \<open>The file\<close>

text \<open>Lines 1 to 9: the conditional chain, as a transformation of the macro table.\<close>

definition family_chain :: "macros \<Rightarrow> macros" where
  "family_chain env =
     (if defined env ''__EMSCRIPTEN__'' then
        pp_define ''MESON_COMPILER_FAMILY'' [Ident ''emscripten''] env
      else if defined env ''__clang__'' then
        pp_define ''MESON_COMPILER_FAMILY'' [Ident ''clang''] env
      else if defined env ''__GNUC__'' then
        pp_define ''MESON_COMPILER_FAMILY'' [Ident ''gcc''] env
      else if defined env ''_MSC_VER'' then
        pp_define ''MESON_COMPILER_FAMILY'' [Ident ''msvc''] env
      else env)"

text \<open>The definition of the macro \<open>MESON_COMPILER_FAMILY\<close> after line 9, if it has one.\<close>

definition MESON_COMPILER_FAMILY :: "macros \<Rightarrow> pp_token list option" where
  "MESON_COMPILER_FAMILY env = map_of (family_chain env) ''MESON_COMPILER_FAMILY''"

text \<open>Line 10, the only line of text.\<close>

definition probe_line :: "pp_token list" where
  "probe_line = [StringLit ''MESON_DELIMITER'', Ident ''MESON_COMPILER_FAMILY'']"

text \<open>The preprocessed file: line 10 expanded with the table left by lines 1 to 9.\<close>

definition compiler_id :: "macros \<Rightarrow> pp_token list" where
  "compiler_id env = expand_line (family_chain env) probe_line"

text \<open>
  The output as text. A string literal is spelled with its quotes; the two tokens of
  line 10 are separated by one space in the source, and stay separate tokens in the
  output, so the spelling puts one space between neighbours. The directives of lines 1
  to 9 leave no text; line markers and the final newline that a preprocessor adds around
  the line are left out.
\<close>

fun spell :: "pp_token \<Rightarrow> string" where
  "spell (Ident n) = n"
| "spell (StringLit s) = CHR 0x22 # s @ [CHR 0x22]"
| "spell (PPNumber s) = s"

fun render :: "pp_token list \<Rightarrow> string" where
  "render [] = []"
| "render [t] = spell t"
| "render (t # u # ts) = spell t @ CHR '' '' # render (u # ts)"

definition compiler_id_output :: "macros \<Rightarrow> string" where
  "compiler_id_output env = render (compiler_id env)"

text \<open>
  The delimiter as it stands in the output text: the literal of line 10 with its quotes,
  and the space that separates it from the next token.
\<close>

definition output_delimiter :: string where
  "output_delimiter = spell (StringLit ''MESON_DELIMITER'') @ [CHR '' '']"

text \<open>The four macros tested by lines 1, 3, 5 and 7.\<close>

definition family_macros :: "string list" where
  "family_macros = [''__EMSCRIPTEN__'', ''__clang__'', ''__GNUC__'', ''_MSC_VER'']"

text \<open>Of the four tested macros, the table defines \<open>m\<close> and no other.\<close>

definition only_family_macro :: "macros \<Rightarrow> string \<Rightarrow> bool" where
  "only_family_macro env m = (\<forall>n\<in>set family_macros. defined env n = (n = m))"

text \<open>
  The chain selects \<open>m\<close>: of the four tested macros, taken in the order of the chain,
  \<open>m\<close> is the first that the table defines.
\<close>

definition chain_selects :: "macros \<Rightarrow> string \<Rightarrow> bool" where
  "chain_selects env m = (find (defined env) family_macros = Some m)"

text \<open>The text of the file, line by line.\<close>

definition compiler_id_text :: string where
  "compiler_id_text = concat (map (\<lambda>l. l @ [CHR 0x0A])
     [''#if defined(__EMSCRIPTEN__)'',
      ''#define MESON_COMPILER_FAMILY emscripten'',
      ''#elif defined(__clang__)'',
      ''#define MESON_COMPILER_FAMILY clang'',
      ''#elif defined(__GNUC__)'',
      ''#define MESON_COMPILER_FAMILY gcc'',
      ''#elif defined(_MSC_VER)'',
      ''#define MESON_COMPILER_FAMILY msvc'',
      ''#endif'']) @ render probe_line"

text \<open>Macro tables as five compilers leave them before the file (the entries that matter).\<close>

definition emcc_env :: macros where
  "emcc_env = [(''__EMSCRIPTEN__'', [PPNumber ''1'']), (''__clang__'', [PPNumber ''1'']),
               (''__GNUC__'', [PPNumber ''4'']), (''__STDC__'', [PPNumber ''1''])]"

definition clang_env :: macros where
  "clang_env = [(''__clang__'', [PPNumber ''1'']), (''__GNUC__'', [PPNumber ''4'']),
                (''__STDC__'', [PPNumber ''1''])]"

definition gcc_env :: macros where
  "gcc_env = [(''__GNUC__'', [PPNumber ''13'']), (''__STDC__'', [PPNumber ''1''])]"

definition msvc_env :: macros where
  "msvc_env = [(''_MSC_VER'', [PPNumber ''1939''])]"

definition other_env :: macros where
  "other_env = [(''__STDC__'', [PPNumber ''1'']), (''__TINYC__'', [PPNumber ''928''])]"

section \<open>The identification subsystem around the probe\<close>

text \<open>
  The repository's source holds the probe only. The components that consume its output
  are described by the specification and are modelled from there.
\<close>

subsection \<open>Output Parser\<close>

text \<open>
  Modelled from the spec: the type CompilerFamily, absent from the source
  (``enumerated variant {Emscripten, Clang, Gcc, Msvc, Unknown}'').
\<close>

datatype CompilerFamily = Emscripten | Clang | Gcc | Msvc | Unknown

text \<open>
  Modelled from the spec: the exact-match table of the Output Parser, absent from the
  source (``maps that token to a CompilerFamily via an exact-match table. Unmatched tokens
  map to Unknown, not an error'').
\<close>

definition family_table :: "(string \<times> CompilerFamily) list" where
  "family_table =
     [(''emscripten'', Emscripten), (''clang'', Clang), (''gcc'', Gcc), (''msvc'', Msvc)]"

definition family_of_token :: "string \<Rightarrow> CompilerFamily" where
  "family_of_token tok = (case map_of family_table tok of Some f \<Rightarrow> f | None \<Rightarrow> Unknown)"

text \<open>
  Modelled from the spec: the delimiter search of the Output Parser, absent from the
  source (``locates the delimiter (first occurrence; if delimiter appears multiple
  times, first wins)''). The text is scanned from the left; the result is the text after
  the first place where the delimiter starts, or None when it starts nowhere.
\<close>

fun after_first :: "string \<Rightarrow> string \<Rightarrow> string option" where
  "after_first d [] = (if d = [] then Some [] else None)"
| "after_first d (c # cs) =
     (if prefix d (c # cs) then Some (drop (length d) (c # cs)) else after_first d cs)"

text \<open>
  Modelled from the spec: what ``first occurrence'' means, for stating the parser's
  contract: the delimiter starts at position \<open>k\<close> of the text and at no position before.
\<close>

definition delimiter_first_at :: "string \<Rightarrow> string \<Rightarrow> nat \<Rightarrow> bool" where
  "delimiter_first_at d txt k =
     (prefix d (drop k txt) \<and> (\<forall>i<k. \<not> prefix d (drop i txt)))"

text \<open>
  Modelled from the spec: the token extraction of the Output Parser, absent from the
  source (``extracts the token immediately following it up to the next
  whitespace/newline''). Whitespace is space, tab, line feed, vertical tab, form feed
  and carriage return.
\<close>

definition is_space :: "char \<Rightarrow> bool" where
  "is_space c = (c \<in> {CHR '' '', CHR 0x09, CHR 0x0A, CHR 0x0B, CHR 0x0C, CHR 0x0D})"

definition next_token :: "string \<Rightarrow> string" where
  "next_token s = takeWhile (\<lambda>c. \<not> is_space c) s"

text \<open>
  Modelled from the spec: the family path of the Output Parser, absent from the source.
  Its result is a CompilerFamily in every case: output without the delimiter gives
  Unknown (``given a fake compiler printing nothing containing the delimiter, resolve
  returns {family: Unknown} without error'').
\<close>

definition parse_family :: "string \<Rightarrow> string \<Rightarrow> CompilerFamily" where
  "parse_family delim txt =
     (case after_first delim txt of
        None \<Rightarrow> Unknown
      | Some rest \<Rightarrow> family_of_token (next_token rest))"

subsection \<open>Capability Cache\<close>

text \<open>
  Modelled from the spec: the error taxonomy, absent from the source
  (``{UnsupportedProbeKind, ExecutableNotFound, PermissionDenied, Timeout,
  NonZeroExitWithNoUsableOutput, ParseError}'').
\<close>

datatype error =
  UnsupportedProbeKind | ExecutableNotFound | PermissionDenied | Timeout
  | NonZeroExitWithNoUsableOutput | ParseError

text \<open>
  Modelled from the spec: the records ProbeFragment and IdentificationResult, absent
  from the source.
\<close>

record ProbeFragment =
  fragment_text :: string
  delimiter :: string

record IdentificationResult =
  family :: CompilerFamily
  rawVersionString :: "string option"
  parsedVersion :: "nat list option"
  linkerId :: "string option"

text \<open>
  Modelled from the spec: the InvocationKey, absent from the source: compiler path,
  flags and probe kind, the three arguments of resolve (the environment variables that
  the spec adds to the fingerprint are fixed during one configuration run). The probe
  kinds are not enumerated by the spec and stay a type parameter.
\<close>

type_synonym 'k InvocationKey = "string \<times> string list \<times> 'k"

text \<open>
  Modelled from the spec: the collaborators of the pipeline, absent from the source.
  The Probe Source Generator gives a fragment or an error for a probe kind; the
  Toolchain Invoker, given path, fragment and flags, gives the captured text or an
  error. Together they are the toolchain a call of resolve runs against.
\<close>

record 'k toolchain =
  generate :: "'k \<Rightarrow> error + ProbeFragment"
  invoke :: "string \<Rightarrow> ProbeFragment \<Rightarrow> string list \<Rightarrow> error + string"

text \<open>
  Modelled from the spec: the generate, invoke, parse pipeline, absent from the source.
  The second component counts the child processes spawned: one for each call of the
  invoker, none when generation fails. The version path is best-effort and separate; the
  result built here has the family and no version (``{family: Gcc, version: absent}'').
\<close>

definition pipeline ::
  "'k toolchain \<Rightarrow> 'k InvocationKey \<Rightarrow> (error + IdentificationResult) \<times> nat" where
  "pipeline tc key =
     (case key of (path, flags, kind) \<Rightarrow>
        (case generate tc kind of
           Inl e \<Rightarrow> (Inl e, 0)
         | Inr frag \<Rightarrow>
             (case invoke tc path frag flags of
                Inl e \<Rightarrow> (Inl e, 1)
              | Inr out \<Rightarrow>
                  (Inr \<lparr>family = parse_family (delimiter frag) out,
                        rawVersionString = None, parsedVersion = None, linkerId = None\<rparr>,
                   1))))"

text \<open>
  Modelled from the spec: the Capability Cache and resolve, absent from the source
  (``on cache hit, returns the stored result with no process spawned. On miss, performs
  the full generate, invoke, parse pipeline''; ``if the underlying pipeline fails, the
  failure is NOT cached''). The state is the cache and the number of processes spawned
  so far.
\<close>

record 'k resolver_state =
  cache :: "'k InvocationKey \<rightharpoonup> IdentificationResult"
  spawns :: nat

definition resolve ::
  "'k toolchain \<Rightarrow> string \<Rightarrow> string list \<Rightarrow> 'k \<Rightarrow> 'k resolver_state
    \<Rightarrow> (error + IdentificationResult) \<times> 'k resolver_state" where
  "resolve tc path flags kind st =
     (let key = (path, flags, kind) in
      case cache st key of
        Some r \<Rightarrow> (Inr r, st)
      | None \<Rightarrow>
          (case pipeline tc key of
             (Inl e, n) \<Rightarrow> (Inl e, st\<lparr>spawns := spawns st + n\<rparr>)
           | (Inr r, n) \<Rightarrow>
               (Inr r, st\<lparr>cache := (cache st)(key \<mapsto> r), spawns := spawns st + n\<rparr>)))"

text \<open>
  The four known families: the macro the probe tests for the family, the token the probe
  defines for it, and the CompilerFamily the spec's table gives the token.
\<close>

definition known_families :: "(string \<times> string \<times> CompilerFamily) list" where
  "known_families =
     [(''__EMSCRIPTEN__'', ''emscripten'', Emscripten), (''__clang__'', ''clang'', Clang),
      (''__GNUC__'', ''gcc'', Gcc), (''_MSC_VER'', ''msvc'', Msvc)]"

text \<open>
  Toolchains to run resolve against, with the language tag as probe kind: a generator
  that knows the C probe only, a compiler that prints the delimiter and \<open>gcc\<close> (the fake
  compiler of the spec's end-to-end scenario), and a compiler path with no executable.
\<close>

definition c_generator :: "string \<Rightarrow> error + ProbeFragment" where
  "c_generator kind =
     (if kind = ''c''
      then Inr \<lparr>fragment_text = compiler_id_text, delimiter = ''MESON_DELIMITER''\<rparr>
      else Inl UnsupportedProbeKind)"

definition fake_gcc :: "string toolchain" where
  "fake_gcc = \<lparr>generate = c_generator, invoke = (\<lambda>path frag flags. Inr ''MESON_DELIMITERgcc'')\<rparr>"

definition missing_cc :: "string toolchain" where
  "missing_cc = \<lparr>generate = c_generator, invoke = (\<lambda>path frag flags. Inl ExecutableNotFound)\<rparr>"

definition empty_state :: "string resolver_state" where
  "empty_state = \<lparr>cache = Map.empty, spawns = 0\<rparr>"

definition gcc_result :: IdentificationResult where
  "gcc_result = \<lparr>family = Gcc, rawVersionString = None, parsedVersion = None, linkerId = None\<rparr>"

text \<open>Resolver states reached in the scenarios below.\<close>

definition gcc_cached :: "string resolver_state" where
  "gcc_cached = \<lparr>cache = [(''/usr/bin/cc'', [''-O2''], ''c'') \<mapsto> gcc_result], spawns = 1\<rparr>"

definition failed_state :: "string resolver_state" where
  "failed_state = \<lparr>cache = Map.empty, spawns = 1\<rparr>"

section \<open>Properties of the probe\<close>

subsection \<open>Auxiliary facts on expansion and on the parser\<close>

lemma map_of_hide: "map_of (hide n env) m = (if m = n then None else map_of env m)"
  unfolding hide_def by (induction env) auto

lemma expand_family_macro:
  assumes "n \<noteq> tok" and "\<not> defined env tok"
  shows "expand (pp_define n [Ident tok] env) (Ident n) = [Ident tok]"
proof -
  have "map_of (hide n (pp_define n [Ident tok] env)) tok = None"
    using assms by (simp add: map_of_hide pp_define_def defined_def)
  then show ?thesis by (simp add: pp_define_def)
qed

lemma family_chain_none:
  "\<not> defined env ''__EMSCRIPTEN__'' \<Longrightarrow> \<not> defined env ''__clang__'' \<Longrightarrow>
   \<not> defined env ''__GNUC__'' \<Longrightarrow> \<not> defined env ''_MSC_VER'' \<Longrightarrow> family_chain env = env"
  by (simp add: family_chain_def)

text \<open>The chain of a compiler of a known family, when only that family's macro is defined.\<close>

lemma family_chain_known:
  assumes "(m, tok, fam) \<in> set known_families"
    and "only_family_macro env m"
  shows "family_chain env = pp_define ''MESON_COMPILER_FAMILY'' [Ident tok] env"
  using assms unfolding known_families_def family_macros_def only_family_macro_def
  by (auto simp: family_chain_def)

lemma family_chain_selected:
  assumes "(m, tok, fam) \<in> set known_families"
    and "chain_selects env m"
  shows "family_chain env = pp_define ''MESON_COMPILER_FAMILY'' [Ident tok] env"
  using assms unfolding known_families_def family_macros_def chain_selects_def
  by (auto simp: family_chain_def split: if_splits)

lemma known_families_rows:
  "(''__EMSCRIPTEN__'', ''emscripten'', Emscripten) \<in> set known_families"
  "(''__clang__'', ''clang'', Clang) \<in> set known_families"
  "(''__GNUC__'', ''gcc'', Gcc) \<in> set known_families"
  "(''_MSC_VER'', ''msvc'', Msvc) \<in> set known_families"
  by (simp_all add: known_families_def)

lemma known_token_facts:
  assumes "(m, tok, fam) \<in> set known_families"
  shows "tok \<noteq> ''MESON_COMPILER_FAMILY''" and "family_of_token tok = fam"
    and "\<forall>c\<in>set tok. \<not> is_space c"
  using assms unfolding known_families_def
  by (auto simp: family_of_token_def family_table_def is_space_def)

lemma compiler_id_family:
  assumes "family_chain env = pp_define ''MESON_COMPILER_FAMILY'' [Ident tok] env"
    and "tok \<noteq> ''MESON_COMPILER_FAMILY''" and "\<not> defined env tok"
  shows "compiler_id env = [StringLit ''MESON_DELIMITER'', Ident tok]"
  using assms expand_family_macro[of "''MESON_COMPILER_FAMILY''" tok env]
  by (simp add: compiler_id_def expand_line_def probe_line_def)

lemma compiler_id_none:
  assumes "family_chain env = env" and "\<not> defined env ''MESON_COMPILER_FAMILY''"
  shows "compiler_id env = [StringLit ''MESON_DELIMITER'', Ident ''MESON_COMPILER_FAMILY'']"
  using assms by (simp add: compiler_id_def expand_line_def probe_line_def defined_def)

lemma after_first_prefix: "after_first d (d @ rest) = Some rest"
proof (cases "d @ rest")
  case Nil
  then show ?thesis by simp
next
  case (Cons a list)
  have "prefix d (a # list)" unfolding Cons[symmetric] by simp
  then have "after_first d (a # list) = Some (drop (length d) (a # list))" by simp
  moreover have "drop (length d) (a # list) = rest" unfolding Cons[symmetric] by simp
  ultimately show ?thesis using Cons by simp
qed

lemma next_token_stop:
  "\<forall>c\<in>set tok. \<not> is_space c \<Longrightarrow> is_space w \<Longrightarrow> next_token (tok @ w # rest) = tok"
  by (simp add: next_token_def takeWhile_tail)

lemma next_token_all: "\<forall>c\<in>set tok. \<not> is_space c \<Longrightarrow> next_token tok = tok"
  by (simp add: next_token_def)

lemma after_first_minimal:
  "\<forall>i<length pre. \<not> prefix d (drop i (pre @ d @ rest))
   \<Longrightarrow> after_first d (pre @ d @ rest) = Some rest"
proof (induction pre)
  case Nil
  show ?case by (simp add: after_first_prefix)
next
  case (Cons p pre)
  from Cons.prems have np: "\<not> prefix d (p # pre @ d @ rest)" by fastforce
  have "\<forall>i<length pre. \<not> prefix d (drop i (pre @ d @ rest))"
  proof (intro allI impI)
    fix i assume "i < length pre"
    then have "Suc i < length (p # pre)" by simp
    with Cons.prems have "\<not> prefix d (drop (Suc i) ((p # pre) @ d @ rest))" by blast
    then show "\<not> prefix d (drop i (pre @ d @ rest))" by simp
  qed
  then have "after_first d (pre @ d @ rest) = Some rest" by (rule Cons.IH)
  with np show ?case by simp
qed

lemma parse_family_synthetic:
  assumes "\<forall>c\<in>set tok. \<not> is_space c"
  shows "parse_family d (d @ tok @ [CHR 0x0A]) = family_of_token tok"
proof -
  have "is_space (CHR 0x0A)" by (simp add: is_space_def)
  with assms have "next_token (tok @ [CHR 0x0A]) = tok" by (simp add: next_token_stop)
  then show ?thesis by (simp add: parse_family_def after_first_prefix)
qed

lemma parse_family_output:
  assumes "compiler_id env = [StringLit ''MESON_DELIMITER'', Ident tok]"
    and "\<forall>c\<in>set tok. \<not> is_space c"
  shows "parse_family output_delimiter (compiler_id_output env) = family_of_token tok"
proof -
  have "compiler_id_output env = output_delimiter @ tok"
    using assms(1) by (simp add: compiler_id_output_def output_delimiter_def)
  then show ?thesis
    using assms(2) by (simp add: parse_family_def after_first_prefix next_token_all)
qed

lemma plain_delimiter_reads_quote:
  "parse_family ''MESON_DELIMITER'' (output_delimiter @ tok) = Unknown"
proof -
  have o: "output_delimiter @ tok
      = CHR 0x22 # (''MESON_DELIMITER'' @ (CHR 0x22 # CHR '' '' # tok))"
    by (simp add: output_delimiter_def)
  have np: "\<not> prefix ''MESON_DELIMITER'' (CHR 0x22 # rest)" for rest
    by simp
  have "after_first ''MESON_DELIMITER'' (output_delimiter @ tok)
      = after_first ''MESON_DELIMITER'' (''MESON_DELIMITER'' @ (CHR 0x22 # CHR '' '' # tok))"
    unfolding o using np by simp
  also have "\<dots> = Some (CHR 0x22 # CHR '' '' # tok)" by (rule after_first_prefix)
  finally have a: "after_first ''MESON_DELIMITER'' (output_delimiter @ tok)
      = Some (CHR 0x22 # CHR '' '' # tok)" .
  have n: "next_token (CHR 0x22 # CHR '' '' # tok) = [CHR 0x22]"
    by (simp add: next_token_def is_space_def)
  show ?thesis
    by (simp add: parse_family_def a n family_of_token_def family_table_def)
qed

subsection \<open>The macro tables of the scenarios\<close>

lemma gcc_env_defined:
  "defined gcc_env n = (n = ''__GNUC__'' \<or> n = ''__STDC__'')"
  by (auto simp: defined_def gcc_env_def)

lemma clang_env_defined:
  "defined clang_env n = (n = ''__clang__'' \<or> n = ''__GNUC__'' \<or> n = ''__STDC__'')"
  by (auto simp: defined_def clang_env_def)

lemma emcc_env_defined:
  "defined emcc_env n =
     (n = ''__EMSCRIPTEN__'' \<or> n = ''__clang__'' \<or> n = ''__GNUC__'' \<or> n = ''__STDC__'')"
  by (auto simp: defined_def emcc_env_def)

lemma msvc_env_defined: "defined msvc_env n = (n = ''_MSC_VER'')"
  by (auto simp: defined_def msvc_env_def)

lemma other_env_defined: "defined other_env n = (n = ''__STDC__'' \<or> n = ''__TINYC__'')"
  by (auto simp: defined_def other_env_def)

subsection \<open>The four families\<close>

text \<open>
  C1. For each of the four known families, when of the four tested macros exactly the
  family's own is defined (and the family's name is not itself the name of a macro), the
  macro \<open>MESON_COMPILER_FAMILY\<close> is defined as, and expands to, the family's token; the
  output is the delimiter literal and that token; and the Output Parser, fed the
  delimiter, the token and a newline, or fed the output text itself with the delimiter as
  it is spelled there, yields the family.
\<close>

theorem probe_identifies_family:
  assumes "(m, tok, fam) \<in> set known_families"
    and "only_family_macro env m"
    and "\<not> defined env tok"
  shows "MESON_COMPILER_FAMILY env = Some [Ident tok]
       \<and> expand (family_chain env) (Ident ''MESON_COMPILER_FAMILY'') = [Ident tok]
       \<and> compiler_id env = [StringLit ''MESON_DELIMITER'', Ident tok]
       \<and> parse_family d (d @ tok @ [CHR 0x0A]) = fam
       \<and> parse_family output_delimiter (compiler_id_output env) = fam"
proof -
  note chain = family_chain_known[OF assms(1,2)]
  note facts = known_token_facts[OF assms(1)]
  have a: "MESON_COMPILER_FAMILY env = Some [Ident tok]"
    by (simp add: MESON_COMPILER_FAMILY_def chain pp_define_def)
  have b: "expand (family_chain env) (Ident ''MESON_COMPILER_FAMILY'') = [Ident tok]"
    unfolding chain using facts(1) assms(3) by (intro expand_family_macro) simp_all
  have c: "compiler_id env = [StringLit ''MESON_DELIMITER'', Ident tok]"
    using chain facts(1) assms(3) by (rule compiler_id_family)
  have d: "parse_family d (d @ tok @ [CHR 0x0A]) = fam"
    using parse_family_synthetic[OF facts(3)] facts(2) by simp
  have e: "parse_family output_delimiter (compiler_id_output env) = fam"
    using parse_family_output[OF c facts(3)] facts(2) by simp
  from a b c d e show ?thesis by blast
qed

theorem probe_identifies_family_witness:
  "(''__GNUC__'', ''gcc'', Gcc) \<in> set known_families
   \<and> only_family_macro gcc_env ''__GNUC__''
   \<and> \<not> defined gcc_env ''gcc''
   \<and> MESON_COMPILER_FAMILY gcc_env = Some [Ident ''gcc'']
   \<and> expand (family_chain gcc_env) (Ident ''MESON_COMPILER_FAMILY'') = [Ident ''gcc'']
   \<and> compiler_id gcc_env = [StringLit ''MESON_DELIMITER'', Ident ''gcc'']
   \<and> parse_family ''MESON_DELIMITER'' (''MESON_DELIMITER'' @ ''gcc'' @ [CHR 0x0A]) = Gcc
   \<and> parse_family output_delimiter (compiler_id_output gcc_env) = Gcc"
proof -
  have h1: "(''__GNUC__'', ''gcc'', Gcc) \<in> set known_families"
    by (simp add: known_families_def)
  have h2: "only_family_macro gcc_env ''__GNUC__''"
    by (simp add: only_family_macro_def family_macros_def gcc_env_defined)
  have h3: "\<not> defined gcc_env ''gcc''"
    by (simp add: gcc_env_defined)
  from h1 h2 h3 probe_identifies_family[OF h1 h2 h3, of "''MESON_DELIMITER''"]
  show ?thesis by blast
qed

text \<open>
  C2, as stated, fails. With gcc the output text is the quoted literal, a space and the
  token: the closing quote of the literal and the space stand between
  \<open>MESON_DELIMITER\<close> and \<open>gcc\<close>, and the contiguous text \<open>MESON_DELIMITERgcc\<close> occurs
  nowhere in it.
\<close>

theorem probe_output_not_contiguous:
  "compiler_id_output gcc_env = CHR 0x22 # ''MESON_DELIMITER'' @ [CHR 0x22] @ '' gcc''
   \<and> \<not> sublist ''MESON_DELIMITERgcc'' (compiler_id_output gcc_env)"
proof -
  have h1: "(''__GNUC__'', ''gcc'', Gcc) \<in> set known_families"
    by (simp add: known_families_def)
  have h2: "only_family_macro gcc_env ''__GNUC__''"
    by (simp add: only_family_macro_def family_macros_def gcc_env_defined)
  have h3: "\<not> defined gcc_env ''gcc''"
    by (simp add: gcc_env_defined)
  have "compiler_id gcc_env = [StringLit ''MESON_DELIMITER'', Ident ''gcc'']"
    using family_chain_known[OF h1 h2] h3 by (intro compiler_id_family) simp_all
  then have out: "compiler_id_output gcc_env = CHR 0x22 # ''MESON_DELIMITER'' @ [CHR 0x22] @ '' gcc''"
    by (simp add: compiler_id_output_def)
  have "\<not> sublist ''MESON_DELIMITERgcc'' (CHR 0x22 # ''MESON_DELIMITER'' @ [CHR 0x22] @ '' gcc'')"
    by code_simp
  with out show ?thesis by simp
qed

lemma not_contiguous:
  assumes "(m, tok, fam) \<in> set known_families"
  shows "\<not> sublist (''MESON_DELIMITER'' @ tok) (output_delimiter @ tok)"
proof -
  have "\<not> sublist (''MESON_DELIMITER'' @ ''emscripten'') (output_delimiter @ ''emscripten'')"
    unfolding output_delimiter_def by code_simp
  moreover have "\<not> sublist (''MESON_DELIMITER'' @ ''clang'') (output_delimiter @ ''clang'')"
    unfolding output_delimiter_def by code_simp
  moreover have "\<not> sublist (''MESON_DELIMITER'' @ ''gcc'') (output_delimiter @ ''gcc'')"
    unfolding output_delimiter_def by code_simp
  moreover have "\<not> sublist (''MESON_DELIMITER'' @ ''msvc'') (output_delimiter @ ''msvc'')"
    unfolding output_delimiter_def by code_simp
  ultimately show ?thesis using assms unfolding known_families_def by auto
qed

text \<open>
  C2, amended. For each of the four known families and every macro table on which the
  chain selects the family (its macro is the first of the four tests that holds, so
  also clang with \<open>__GNUC__\<close> defined and Emscripten with \<open>__clang__\<close> and \<open>__GNUC__\<close>
  defined) and in which the family's name is not itself the name of a macro: the output
  is the delimiter string literal with the family token as the very next token; as text
  it is the literal in its double quotes, one space, and the token; the text
  \<open>MESON_DELIMITER\<close> directly followed by the token does not occur in it. The contract
  with the Output Parser is this quoted literal and space: the output is that delimiter
  followed by the token, the parser given that delimiter yields the family, and the
  parser given the bare text \<open>MESON_DELIMITER\<close> reads the closing quote and yields Unknown.
\<close>

theorem probe_output_shape:
  assumes "(m, tok, fam) \<in> set known_families"
    and "chain_selects env m"
    and "\<not> defined env tok"
  shows "compiler_id env = [StringLit ''MESON_DELIMITER'', Ident tok]
       \<and> compiler_id_output env = CHR 0x22 # ''MESON_DELIMITER'' @ [CHR 0x22, CHR '' ''] @ tok
       \<and> \<not> sublist (''MESON_DELIMITER'' @ tok) (compiler_id_output env)
       \<and> compiler_id_output env = output_delimiter @ tok
       \<and> parse_family output_delimiter (compiler_id_output env) = fam
       \<and> parse_family ''MESON_DELIMITER'' (compiler_id_output env) = Unknown"
proof -
  note facts = known_token_facts[OF assms(1)]
  have c: "compiler_id env = [StringLit ''MESON_DELIMITER'', Ident tok]"
    using family_chain_selected[OF assms(1,2)] facts(1) assms(3)
    by (rule compiler_id_family)
  then have out: "compiler_id_output env = output_delimiter @ tok"
    by (simp add: compiler_id_output_def output_delimiter_def)
  then have t: "compiler_id_output env = CHR 0x22 # ''MESON_DELIMITER'' @ [CHR 0x22, CHR '' ''] @ tok"
    by (simp add: output_delimiter_def)
  from not_contiguous[OF assms(1)] out
  have s: "\<not> sublist (''MESON_DELIMITER'' @ tok) (compiler_id_output env)" by simp
  have p: "parse_family output_delimiter (compiler_id_output env) = fam"
    using parse_family_output[OF c facts(3)] facts(2) by simp
  have u: "parse_family ''MESON_DELIMITER'' (compiler_id_output env) = Unknown"
    unfolding out by (rule plain_delimiter_reads_quote)
  from c t s out p u show ?thesis by blast
qed

theorem probe_output_shape_witness:
  "chain_selects emcc_env ''__EMSCRIPTEN__'' \<and> \<not> defined emcc_env ''emscripten''
   \<and> compiler_id emcc_env = [StringLit ''MESON_DELIMITER'', Ident ''emscripten'']
   \<and> parse_family output_delimiter (compiler_id_output emcc_env) = Emscripten
   \<and> chain_selects clang_env ''__clang__'' \<and> \<not> defined clang_env ''clang''
   \<and> compiler_id clang_env = [StringLit ''MESON_DELIMITER'', Ident ''clang'']
   \<and> compiler_id_output clang_env
       = CHR 0x22 # ''MESON_DELIMITER'' @ [CHR 0x22, CHR '' ''] @ ''clang''
   \<and> \<not> sublist (''MESON_DELIMITER'' @ ''clang'') (compiler_id_output clang_env)
   \<and> compiler_id_output clang_env = output_delimiter @ ''clang''
   \<and> parse_family output_delimiter (compiler_id_output clang_env) = Clang
   \<and> parse_family ''MESON_DELIMITER'' (compiler_id_output clang_env) = Unknown
   \<and> chain_selects gcc_env ''__GNUC__'' \<and> \<not> defined gcc_env ''gcc''
   \<and> compiler_id gcc_env = [StringLit ''MESON_DELIMITER'', Ident ''gcc'']
   \<and> parse_family output_delimiter (compiler_id_output gcc_env) = Gcc
   \<and> chain_selects msvc_env ''_MSC_VER'' \<and> \<not> defined msvc_env ''msvc''
   \<and> compiler_id msvc_env = [StringLit ''MESON_DELIMITER'', Ident ''msvc'']
   \<and> parse_family output_delimiter (compiler_id_output msvc_env) = Msvc"
proof -
  have e: "chain_selects emcc_env ''__EMSCRIPTEN__''" "\<not> defined emcc_env ''emscripten''"
    by (simp_all add: chain_selects_def family_macros_def emcc_env_defined)
  have c: "chain_selects clang_env ''__clang__''" "\<not> defined clang_env ''clang''"
    by (simp_all add: chain_selects_def family_macros_def clang_env_defined)
  have g: "chain_selects gcc_env ''__GNUC__''" "\<not> defined gcc_env ''gcc''"
    by (simp_all add: chain_selects_def family_macros_def gcc_env_defined)
  have m: "chain_selects msvc_env ''_MSC_VER''" "\<not> defined msvc_env ''msvc''"
    by (simp_all add: chain_selects_def family_macros_def msvc_env_defined)
  from e c g m
    probe_output_shape[OF known_families_rows(1) e]
    probe_output_shape[OF known_families_rows(2) c]
    probe_output_shape[OF known_families_rows(3) g]
    probe_output_shape[OF known_families_rows(4) m]
  show ?thesis by blast
qed

text \<open>
  C3. The tests are taken in the order \<open>__EMSCRIPTEN__\<close>, \<open>__clang__\<close>, \<open>__GNUC__\<close>,
  \<open>_MSC_VER\<close>, and the first that holds decides, whatever else the table defines: a
  table with \<open>__EMSCRIPTEN__\<close> gives emscripten also when \<open>__clang__\<close> and \<open>__GNUC__\<close>
  are defined; one without it but with \<open>__clang__\<close> gives clang also when \<open>__GNUC__\<close> is
  defined; and so on down the chain.
\<close>

theorem family_chain_precedence:
  "(defined env ''__EMSCRIPTEN__'' \<longrightarrow>
      MESON_COMPILER_FAMILY env = Some [Ident ''emscripten''])
   \<and> (\<not> defined env ''__EMSCRIPTEN__'' \<and> defined env ''__clang__'' \<longrightarrow>
      MESON_COMPILER_FAMILY env = Some [Ident ''clang''])
   \<and> (\<not> defined env ''__EMSCRIPTEN__'' \<and> \<not> defined env ''__clang__'' \<and> defined env ''__GNUC__'' \<longrightarrow>
      MESON_COMPILER_FAMILY env = Some [Ident ''gcc''])
   \<and> (\<not> defined env ''__EMSCRIPTEN__'' \<and> \<not> defined env ''__clang__'' \<and> \<not> defined env ''__GNUC__''
      \<and> defined env ''_MSC_VER'' \<longrightarrow>
      MESON_COMPILER_FAMILY env = Some [Ident ''msvc''])"
  by (simp add: MESON_COMPILER_FAMILY_def family_chain_def pp_define_def)

theorem family_chain_precedence_witness:
  "defined emcc_env ''__EMSCRIPTEN__'' \<and> defined emcc_env ''__clang__''
   \<and> defined emcc_env ''__GNUC__''
   \<and> MESON_COMPILER_FAMILY emcc_env = Some [Ident ''emscripten'']
   \<and> \<not> defined clang_env ''__EMSCRIPTEN__'' \<and> defined clang_env ''__clang__''
   \<and> defined clang_env ''__GNUC__''
   \<and> MESON_COMPILER_FAMILY clang_env = Some [Ident ''clang'']
   \<and> \<not> defined gcc_env ''__EMSCRIPTEN__'' \<and> \<not> defined gcc_env ''__clang__''
   \<and> defined gcc_env ''__GNUC__''
   \<and> MESON_COMPILER_FAMILY gcc_env = Some [Ident ''gcc'']
   \<and> \<not> defined msvc_env ''__EMSCRIPTEN__'' \<and> \<not> defined msvc_env ''__clang__''
   \<and> \<not> defined msvc_env ''__GNUC__'' \<and> defined msvc_env ''_MSC_VER''
   \<and> MESON_COMPILER_FAMILY msvc_env = Some [Ident ''msvc'']"
  using family_chain_precedence[of emcc_env] family_chain_precedence[of clang_env]
    family_chain_precedence[of gcc_env] family_chain_precedence[of msvc_env]
  by (simp add: emcc_env_defined clang_env_defined gcc_env_defined msvc_env_defined)

text \<open>
  C4. When none of the four macros is defined, the chain leaves the macro table as it
  was: no branch is taken and there is no other one. So \<open>MESON_COMPILER_FAMILY\<close>, not
  defined before the file, is still not defined after line 9.
\<close>

theorem no_family_macro_leaves_undefined:
  assumes "\<not> defined env ''__EMSCRIPTEN__''" and "\<not> defined env ''__clang__''"
    and "\<not> defined env ''__GNUC__''" and "\<not> defined env ''_MSC_VER''"
  shows "family_chain env = env
       \<and> MESON_COMPILER_FAMILY env = map_of env ''MESON_COMPILER_FAMILY''
       \<and> (\<not> defined env ''MESON_COMPILER_FAMILY'' \<longrightarrow>
            MESON_COMPILER_FAMILY env = None
            \<and> \<not> defined (family_chain env) ''MESON_COMPILER_FAMILY'')"
  using assms by (simp add: MESON_COMPILER_FAMILY_def family_chain_def defined_def)

theorem no_family_macro_leaves_undefined_witness:
  "\<not> defined other_env ''__EMSCRIPTEN__'' \<and> \<not> defined other_env ''__clang__''
   \<and> \<not> defined other_env ''__GNUC__'' \<and> \<not> defined other_env ''_MSC_VER''
   \<and> \<not> defined other_env ''MESON_COMPILER_FAMILY''
   \<and> family_chain other_env = other_env
   \<and> MESON_COMPILER_FAMILY other_env = None
   \<and> \<not> defined (family_chain other_env) ''MESON_COMPILER_FAMILY''"
proof -
  have h: "\<not> defined other_env ''__EMSCRIPTEN__''" "\<not> defined other_env ''__clang__''"
    "\<not> defined other_env ''__GNUC__''" "\<not> defined other_env ''_MSC_VER''"
    by (simp_all add: other_env_defined)
  have m: "\<not> defined other_env ''MESON_COMPILER_FAMILY''"
    by (simp add: other_env_defined)
  from h m no_family_macro_leaves_undefined[OF h] show ?thesis by blast
qed

text \<open>
  C5. When none of the four macros is defined (and \<open>MESON_COMPILER_FAMILY\<close> is not
  defined from outside, as C4 has it), preprocessing still gives an output: the delimiter
  literal followed by the identifier \<open>MESON_COMPILER_FAMILY\<close> itself, not expanded. The
  text after the delimiter is present, the token read from it is that identifier, not the
  empty token, and it is not in the table of known families, so the parser gives Unknown.
\<close>

theorem no_family_macro_output:
  assumes "\<not> defined env ''__EMSCRIPTEN__''" and "\<not> defined env ''__clang__''"
    and "\<not> defined env ''__GNUC__''" and "\<not> defined env ''_MSC_VER''"
    and "\<not> defined env ''MESON_COMPILER_FAMILY''"
  shows "compiler_id env = [StringLit ''MESON_DELIMITER'', Ident ''MESON_COMPILER_FAMILY'']
       \<and> compiler_id_output env = output_delimiter @ ''MESON_COMPILER_FAMILY''
       \<and> after_first output_delimiter (compiler_id_output env) = Some ''MESON_COMPILER_FAMILY''
       \<and> next_token ''MESON_COMPILER_FAMILY'' = ''MESON_COMPILER_FAMILY''
       \<and> ''MESON_COMPILER_FAMILY'' \<notin> set (map fst family_table)
       \<and> parse_family output_delimiter (compiler_id_output env) = Unknown"
proof -
  have c: "compiler_id env = [StringLit ''MESON_DELIMITER'', Ident ''MESON_COMPILER_FAMILY'']"
    using family_chain_none[OF assms(1-4)] assms(5) by (rule compiler_id_none)
  then have out: "compiler_id_output env = output_delimiter @ ''MESON_COMPILER_FAMILY''"
    by (simp add: compiler_id_output_def output_delimiter_def)
  have a: "after_first output_delimiter (compiler_id_output env) = Some ''MESON_COMPILER_FAMILY''"
    unfolding out by (rule after_first_prefix)
  have n: "next_token ''MESON_COMPILER_FAMILY'' = ''MESON_COMPILER_FAMILY''"
    by (intro next_token_all) (simp add: is_space_def)
  have k: "''MESON_COMPILER_FAMILY'' \<notin> set (map fst family_table)"
    by (simp add: family_table_def)
  have p: "parse_family output_delimiter (compiler_id_output env) = Unknown"
    by (simp add: parse_family_def a n family_of_token_def family_table_def)
  from c out a n k p show ?thesis by blast
qed

theorem no_family_macro_output_witness:
  "\<not> defined other_env ''__EMSCRIPTEN__'' \<and> \<not> defined other_env ''__clang__''
   \<and> \<not> defined other_env ''__GNUC__'' \<and> \<not> defined other_env ''_MSC_VER''
   \<and> \<not> defined other_env ''MESON_COMPILER_FAMILY''
   \<and> compiler_id other_env = [StringLit ''MESON_DELIMITER'', Ident ''MESON_COMPILER_FAMILY'']
   \<and> compiler_id_output other_env = output_delimiter @ ''MESON_COMPILER_FAMILY''
   \<and> parse_family output_delimiter (compiler_id_output other_env) = Unknown"
proof -
  have h: "\<not> defined other_env ''__EMSCRIPTEN__''" "\<not> defined other_env ''__clang__''"
    "\<not> defined other_env ''__GNUC__''" "\<not> defined other_env ''_MSC_VER''"
    "\<not> defined other_env ''MESON_COMPILER_FAMILY''"
    by (simp_all add: other_env_defined)
  from h no_family_macro_output[OF h] show ?thesis by blast
qed

section \<open>Properties of the Output Parser\<close>

text \<open>
  C6. A token that is not in the table of known families is mapped to Unknown; and
  whenever the token the parser reads after the delimiter is such a token, the parser's
  result is the family Unknown. The result is a CompilerFamily in every case: the
  family path has no error to give.
\<close>

theorem unknown_token_gives_Unknown:
  assumes "tok \<notin> set (map fst family_table)"
  shows "family_of_token tok = Unknown
       \<and> (after_first d txt = Some rest \<and> next_token rest = tok \<longrightarrow>
            parse_family d txt = Unknown)"
proof -
  from assms have "map_of family_table tok = None"
    by (simp add: map_of_eq_None_iff)
  then have "family_of_token tok = Unknown" by (simp add: family_of_token_def)
  then show ?thesis by (simp add: parse_family_def)
qed

theorem unknown_token_gives_Unknown_witness:
  "''tcc'' \<notin> set (map fst family_table)
   \<and> family_of_token ''tcc'' = Unknown
   \<and> after_first ''MESON_DELIMITER'' (''MESON_DELIMITERtcc'' @ [CHR 0x0A]) = Some (''tcc'' @ [CHR 0x0A])
   \<and> next_token (''tcc'' @ [CHR 0x0A]) = ''tcc''
   \<and> parse_family ''MESON_DELIMITER'' (''MESON_DELIMITERtcc'' @ [CHR 0x0A]) = Unknown"
proof -
  have h1: "''tcc'' \<notin> set (map fst family_table)" by (simp add: family_table_def)
  have h2: "after_first ''MESON_DELIMITER'' (''MESON_DELIMITERtcc'' @ [CHR 0x0A]) = Some (''tcc'' @ [CHR 0x0A])"
    by simp
  have h3: "next_token (''tcc'' @ [CHR 0x0A]) = ''tcc''"
    by (simp add: next_token_def is_space_def)
  from h1 h2 h3 unknown_token_gives_Unknown[OF h1, of "''MESON_DELIMITER''"
      "''MESON_DELIMITERtcc'' @ [CHR 0x0A]" "''tcc'' @ [CHR 0x0A]"]
  show ?thesis by blast
qed

lemma delimiter_first_at_split:
  assumes "delimiter_first_at d txt k"
  shows "txt = take k txt @ d @ drop (k + length d) txt" and "k \<le> length txt"
proof -
  from assms have p: "prefix d (drop k txt)" and m: "\<forall>i<k. \<not> prefix d (drop i txt)"
    by (simp_all add: delimiter_first_at_def)
  show le: "k \<le> length txt"
  proof (rule ccontr)
    assume "\<not> k \<le> length txt"
    then have "drop k txt = []" and "0 < k" by simp_all
    with p have "d = []" by simp
    with m \<open>0 < k\<close> show False by auto
  qed
  from p obtain suf where s: "drop k txt = d @ suf" by (auto simp: prefix_def)
  have "drop (k + length d) txt = drop (length d) (drop k txt)" by (simp add: add.commute)
  with s have "drop (k + length d) txt = suf" by simp
  with s have "drop k txt = d @ drop (k + length d) txt" by simp
  then have "take k txt @ drop k txt = take k txt @ d @ drop (k + length d) txt" by simp
  then show "txt = take k txt @ d @ drop (k + length d) txt" by simp
qed

lemma after_first_at:
  assumes "delimiter_first_at d txt k"
  shows "after_first d txt = Some (drop (k + length d) txt)"
proof -
  let ?pre = "take k txt" and ?rest = "drop (k + length d) txt"
  note split = delimiter_first_at_split[OF assms]
  have len: "length ?pre = k" using split(2) by simp
  have "\<forall>i<length ?pre. \<not> prefix d (drop i (?pre @ d @ ?rest))"
    using assms unfolding len split(1)[symmetric] by (simp add: delimiter_first_at_def)
  then have "after_first d (?pre @ d @ ?rest) = Some ?rest" by (rule after_first_minimal)
  then show ?thesis using split(1) by simp
qed

text \<open>
  C7. When the first occurrence of the delimiter starts at position \<open>k\<close>, however many
  occurrences follow, the parser's result is the table lookup of the text that follows
  this occurrence, up to the next whitespace character: if that text is a token without
  whitespace, then a whitespace character, then anything, the result is the lookup of
  the token.
\<close>

theorem first_delimiter_wins:
  assumes "delimiter_first_at d txt k"
  shows "parse_family d txt =
           family_of_token (takeWhile (\<lambda>c. \<not> is_space c) (drop (k + length d) txt))
       \<and> ((\<forall>c\<in>set tok. \<not> is_space c) \<and> is_space w \<and> drop (k + length d) txt = tok @ w # more_txt
            \<longrightarrow> parse_family d txt = family_of_token tok)"
proof -
  have a: "parse_family d txt =
      family_of_token (takeWhile (\<lambda>c. \<not> is_space c) (drop (k + length d) txt))"
    by (simp add: parse_family_def after_first_at[OF assms] next_token_def)
  have "parse_family d txt = family_of_token tok"
    if "\<forall>c\<in>set tok. \<not> is_space c" "is_space w" "drop (k + length d) txt = tok @ w # more_txt"
    using that next_token_stop[of tok w more_txt]
    by (simp add: parse_family_def after_first_at[OF assms])
  with a show ?thesis by blast
qed

theorem first_delimiter_wins_witness:
  "delimiter_first_at ''MESON_DELIMITER'' ''cc: MESON_DELIMITERgcc MESON_DELIMITERclang'' 4
   \<and> list_all (\<lambda>c. \<not> is_space c) ''gcc'' \<and> is_space (CHR '' '')
   \<and> drop (4 + length ''MESON_DELIMITER'') ''cc: MESON_DELIMITERgcc MESON_DELIMITERclang''
       = ''gcc'' @ CHR '' '' # ''MESON_DELIMITERclang''
   \<and> parse_family ''MESON_DELIMITER'' ''cc: MESON_DELIMITERgcc MESON_DELIMITERclang'' = Gcc
   \<and> family_of_token ''gcc'' = Gcc"
proof -
  let ?txt = "''cc: MESON_DELIMITERgcc MESON_DELIMITERclang''"
  have "\<forall>i<4. \<not> prefix ''MESON_DELIMITER'' (drop i ?txt)"
  proof (intro allI impI)
    fix i :: nat assume "i < 4"
    then consider "i = 0" | "i = 1" | "i = 2" | "i = 3" by linarith
    then show "\<not> prefix ''MESON_DELIMITER'' (drop i ?txt)" by cases simp_all
  qed
  then have h1: "delimiter_first_at ''MESON_DELIMITER'' ?txt 4"
    by (simp add: delimiter_first_at_def)
  have h2: "\<forall>c\<in>set ''gcc''. \<not> is_space c" by (simp add: is_space_def)
  have h3: "is_space (CHR '' '')" by (simp add: is_space_def)
  have h4: "drop (4 + length ''MESON_DELIMITER'') ?txt = ''gcc'' @ CHR '' '' # ''MESON_DELIMITERclang''"
    by simp
  have g: "family_of_token ''gcc'' = Gcc" by (simp add: family_of_token_def family_table_def)
  from h1 h2 h3 h4 g first_delimiter_wins[OF h1, of "''gcc''" "CHR '' ''" "''MESON_DELIMITERclang''"]
  show ?thesis by simp
qed

section \<open>Properties of the Capability Cache\<close>

lemma resolve_hit:
  "cache st (path, flags, kind) = Some r \<Longrightarrow> resolve tc path flags kind st = (Inr r, st)"
  by (simp add: resolve_def)

lemma resolve_miss:
  "cache st (path, flags, kind) = None \<Longrightarrow>
   resolve tc path flags kind st =
     (case pipeline tc (path, flags, kind) of
        (Inl e, n) \<Rightarrow> (Inl e, st\<lparr>spawns := spawns st + n\<rparr>)
      | (Inr r, n) \<Rightarrow>
          (Inr r, st\<lparr>cache := (cache st)((path, flags, kind) \<mapsto> r), spawns := spawns st + n\<rparr>))"
  by (simp add: resolve_def Let_def)

lemma resolve_success_cached:
  assumes "resolve tc path flags kind st = (Inr r, st')"
  shows "cache st' (path, flags, kind) = Some r"
proof (cases "cache st (path, flags, kind)")
  case None
  with assms show ?thesis
    by (auto simp: resolve_miss split: prod.splits sum.splits)
next
  case (Some r')
  with assms show ?thesis by (simp add: resolve_hit)
qed

lemma resolve_failure_miss:
  assumes "resolve tc path flags kind st = (Inl e, st')"
  shows "cache st (path, flags, kind) = None" and "cache st' = cache st"
proof -
  show n: "cache st (path, flags, kind) = None"
  proof (cases "cache st (path, flags, kind)")
    case (Some r)
    with assms show ?thesis by (simp add: resolve_hit)
  qed simp
  from assms show "cache st' = cache st"
    by (auto simp: resolve_miss[OF n] split: prod.splits sum.splits)
qed

text \<open>An entry of the cache is never replaced nor removed by resolve, whatever the key asked for.\<close>

lemma resolve_preserves_entries:
  assumes "cache st key = Some r"
  shows "cache (snd (resolve tc path flags kind st)) key = Some r"
proof (cases "cache st (path, flags, kind)")
  case None
  with assms have "key \<noteq> (path, flags, kind)" by auto
  with assms None show ?thesis
    by (auto simp: resolve_miss split: prod.splits sum.splits)
next
  case (Some r')
  with assms show ?thesis by (simp add: resolve_hit)
qed

lemma fake_gcc_pipeline:
  "pipeline fake_gcc (''/usr/bin/cc'', [''-O2''], ''c'') = (Inr gcc_result, 1)"
  by (simp add: pipeline_def fake_gcc_def c_generator_def gcc_result_def parse_family_def
      next_token_def is_space_def family_of_token_def family_table_def)

lemma missing_cc_pipeline:
  "pipeline missing_cc (''/usr/bin/cc'', [''-O2''], ''c'') = (Inl ExecutableNotFound, 1)"
  by (simp add: pipeline_def missing_cc_def c_generator_def)

lemma resolve_same_outcome:
  "fst (resolve tc path flags kind (snd (resolve tc path flags kind st)))
     = fst (resolve tc path flags kind st)"
proof (cases "cache st (path, flags, kind)")
  case None
  then show ?thesis
    by (auto simp: resolve_miss resolve_hit split: prod.splits sum.splits)
next
  case (Some r')
  then show ?thesis by (simp add: resolve_hit)
qed

text \<open>
  C8. Two calls of resolve with the same path, flags and kind against the same toolchain
  have the same outcome. When the first call returned an IdentificationResult, the second
  returns the same result and leaves the state as it found it: it spawns no process (the
  count of spawned processes is unchanged) and changes nothing in the cache.
\<close>

theorem resolve_idempotent:
  "fst (resolve tc path flags kind (snd (resolve tc path flags kind st)))
     = fst (resolve tc path flags kind st)
   \<and> (resolve tc path flags kind st = (Inr r, st') \<longrightarrow>
        resolve tc path flags kind st' = (Inr r, st')
        \<and> spawns (snd (resolve tc path flags kind st')) = spawns st'
        \<and> cache (snd (resolve tc path flags kind st')) = cache st')"
proof -
  have "resolve tc path flags kind st' = (Inr r, st')"
    if "resolve tc path flags kind st = (Inr r, st')"
    using resolve_success_cached[OF that] by (rule resolve_hit)
  then show ?thesis by (simp add: resolve_same_outcome)
qed

theorem resolve_idempotent_witness:
  "resolve fake_gcc ''/usr/bin/cc'' [''-O2''] ''c'' empty_state = (Inr gcc_result, gcc_cached)
   \<and> resolve fake_gcc ''/usr/bin/cc'' [''-O2''] ''c'' gcc_cached = (Inr gcc_result, gcc_cached)
   \<and> spawns (snd (resolve fake_gcc ''/usr/bin/cc'' [''-O2''] ''c'' gcc_cached)) = 1"
proof -
  have h: "resolve fake_gcc ''/usr/bin/cc'' [''-O2''] ''c'' empty_state = (Inr gcc_result, gcc_cached)"
    by (simp add: resolve_def Let_def fake_gcc_pipeline empty_state_def gcc_cached_def)
  from h resolve_idempotent[of fake_gcc "''/usr/bin/cc''" "[''-O2'']" "''c''" empty_state
      gcc_result gcc_cached]
  show ?thesis by (simp add: gcc_cached_def)
qed

text \<open>
  C9. When a call of resolve fails, it leaves the cache as it was, with no entry for the
  key. A later call with the same key, against whatever the toolchain has become, runs
  the pipeline again: its outcome is the pipeline's, the processes the pipeline spawns
  are counted, and when the pipeline now succeeds the call returns its result and stores
  it, with no clearing of the cache in between.
\<close>

theorem failure_not_cached:
  assumes "resolve tc path flags kind st = (Inl e, st')"
  shows "cache st' = cache st
       \<and> cache st' (path, flags, kind) = None
       \<and> fst (resolve tc' path flags kind st') = fst (pipeline tc' (path, flags, kind))
       \<and> spawns (snd (resolve tc' path flags kind st'))
           = spawns st' + snd (pipeline tc' (path, flags, kind))
       \<and> (fst (pipeline tc' (path, flags, kind)) = Inr r \<longrightarrow>
            fst (resolve tc' path flags kind st') = Inr r
            \<and> cache (snd (resolve tc' path flags kind st')) (path, flags, kind) = Some r)"
proof -
  note f = resolve_failure_miss[OF assms]
  from f have n: "cache st' (path, flags, kind) = None" by simp
  show ?thesis
    using f(2) n by (auto simp: resolve_miss[OF n] split: prod.splits sum.splits)
qed

theorem failure_not_cached_witness:
  "resolve missing_cc ''/usr/bin/cc'' [''-O2''] ''c'' empty_state
     = (Inl ExecutableNotFound, failed_state)
   \<and> cache failed_state = cache empty_state
   \<and> fst (pipeline fake_gcc (''/usr/bin/cc'', [''-O2''], ''c'')) = Inr gcc_result
   \<and> fst (resolve fake_gcc ''/usr/bin/cc'' [''-O2''] ''c'' failed_state) = Inr gcc_result
   \<and> spawns (snd (resolve fake_gcc ''/usr/bin/cc'' [''-O2''] ''c'' failed_state)) = 2
   \<and> cache (snd (resolve fake_gcc ''/usr/bin/cc'' [''-O2''] ''c'' failed_state))
       (''/usr/bin/cc'', [''-O2''], ''c'') = Some gcc_result"
proof -
  have h: "resolve missing_cc ''/usr/bin/cc'' [''-O2''] ''c'' empty_state
      = (Inl ExecutableNotFound, failed_state)"
    by (simp add: resolve_def Let_def missing_cc_pipeline empty_state_def failed_state_def)
  from h failure_not_cached[OF h, of fake_gcc gcc_result] show ?thesis
    by (simp add: fake_gcc_pipeline failed_state_def empty_state_def)
qed

end
